theory Spec2Isabelle
  imports Complex_Main "HOL-Library.Multiset"
begin

section \<open>Data model (the interfaces of the types module)\<close>

text \<open>
  A JavaScript string is a sequence of UTF-16 code units. It is modelled as a \<open>string\<close>
  whose characters stand for the code units of ASCII text: the letters \<open>A-Z\<close> and
  \<open>a-z\<close> carry case, every other character is caseless. Positions and lengths
  count characters, as \<open>match.index\<close> and \<open>length\<close> count code units.
  A \<open>number\<close> that holds a category weight or a keyword score is an \<open>int\<close>; a
  \<open>number\<close> that holds a confidence or a blended score is a \<open>real\<close>, so the decimal
  constants of the source (\<open>0.3\<close>, \<open>0.6\<close>, ...) are exact.
\<close>

datatype Severity = Low | Medium | High | Critical

text \<open>interface KeywordCategory: fields \<open>keywords\<close>, \<open>severity\<close>, \<open>weight\<close>.\<close>

record KeywordCategory =
  kc_keywords :: "string list"
  kc_severity :: Severity
  kc_weight :: int

text \<open>interface MatchDetail: fields \<open>keyword\<close>, \<open>severity\<close>, \<open>position\<close>, \<open>context\<close>.\<close>

record MatchDetail =
  md_keyword :: string
  md_severity :: Severity
  md_position :: nat
  md_context :: string

text \<open>interface DetectionResult: fields \<open>flagged\<close>, \<open>score\<close>, \<open>matches\<close>, \<open>severity\<close>, \<open>details\<close>.\<close>

record DetectionResult =
  flagged :: bool
  score :: int
  matches :: "string list"
  severity :: Severity
  details :: "MatchDetail list"

section \<open>Strings and the keyword regular expression (scanner.ts)\<close>

text \<open>
  \<open>String.prototype.toLowerCase\<close> on ASCII text: the letters \<open>A-Z\<close> are lowered and the
  length stays. Outside ASCII the source also lowers other letters and may lengthen the
  string; that is not modelled, and a statement that rests on the case mapping is made
  for ASCII strings (\<open>isAscii\<close> below).
\<close>

definition toLowerChar :: "char \<Rightarrow> char" where
  "toLowerChar c =
     (let n = (of_char c :: nat) in if 65 \<le> n \<and> n \<le> 90 then char_of (n + 32) else c)"

definition toLowerCase :: "string \<Rightarrow> string" where
  "toLowerCase s = map toLowerChar s"

text \<open>
  The canonicalisation of a character under the \<open>i\<close> flag (without \<open>u\<close>), on ASCII
  text: the upper case of the letters \<open>a-z\<close>. The source canonicalises every code unit
  that has a single-unit upper case; outside ASCII that is not modelled.
\<close>

definition canonicalize :: "char \<Rightarrow> char" where
  "canonicalize c =
     (let n = (of_char c :: nat) in if 97 \<le> n \<and> n \<le> 122 then char_of (n - 32) else c)"

text \<open>The word characters of \<open>\b\<close>: \<open>[A-Za-z0-9_]\<close>.\<close>

definition isWordChar :: "char \<Rightarrow> bool" where
  "isWordChar c =
     (let n = (of_char c :: nat)
      in (48 \<le> n \<and> n \<le> 57) \<or> (65 \<le> n \<and> n \<le> 90) \<or> n = 95 \<or> (97 \<le> n \<and> n \<le> 122))"

definition isWordCharAt :: "string \<Rightarrow> nat \<Rightarrow> bool" where
  "isWordCharAt text i = (i < length text \<and> isWordChar (text ! i))"

text \<open>
  \<open>\b\<close> holds at index \<open>i\<close> when exactly one of the characters at \<open>i - 1\<close> and \<open>i\<close>
  is a word character; an index outside the text counts as a non-word character.
\<close>

definition wordBoundary :: "string \<Rightarrow> nat \<Rightarrow> bool" where
  "wordBoundary text i = ((0 < i \<and> isWordCharAt text (i - 1)) \<noteq> isWordCharAt text i)"

text \<open>
  \<open>escapeRegex\<close> puts a backslash before each of \<open>. * + ? ^ $ { } ( ) | [ ] \\<close>, so
  every character of the keyword stands for itself in the pattern
  \<open>\b<keyword>\b\<close>. The pattern matches at \<open>p\<close> when \<open>\b\<close> holds at \<open>p\<close>, the
  next \<open>keyword.length\<close> characters equal the keyword up to case, and \<open>\b\<close> holds
  behind them.
\<close>

definition matchesAt :: "string \<Rightarrow> string \<Rightarrow> nat \<Rightarrow> bool" where
  "matchesAt keyword text p =
     (wordBoundary text p \<and> p + length keyword \<le> length text \<and>
      map canonicalize (take (length keyword) (drop p text)) = map canonicalize keyword \<and>
      wordBoundary text (p + length keyword))"

text \<open>
  \<open>regex.exec(text)\<close> of a global regular expression whose \<open>lastIndex\<close> is
  \<open>lastIndex\<close>: the index of the leftmost match that starts at \<open>lastIndex\<close> or later,
  or \<open>null\<close> (here \<open>None\<close>) when there is none. After a match, \<open>lastIndex\<close> is the
  end of the match.
\<close>

definition regexExec :: "string \<Rightarrow> string \<Rightarrow> nat \<Rightarrow> nat option" where
  "regexExec keyword text lastIndex =
     List.find (matchesAt keyword text) [lastIndex ..< Suc (length text)]"

text \<open>\<open>String.prototype.substring\<close>: both indices are clamped to the length and ordered.\<close>

definition substring :: "string \<Rightarrow> nat \<Rightarrow> nat \<Rightarrow> string" where
  "substring text a b =
     (let a' = min a (length text); b' = min b (length text);
          lo = min a' b'; hi = max a' b'
      in take (hi - lo) (drop lo text))"

definition extractContext :: "string \<Rightarrow> nat \<Rightarrow> nat \<Rightarrow> string" where
  "extractContext text position len =
     (let start = (if position < 30 then 0 else position - 30);
          end = min (length text) (position + len + 30);
          context = substring text start end;
          context = (if start > 0 then ''...'' @ context else context);
          context = (if end < length text then context @ ''...'' else context)
      in context)"

section \<open>KeywordScanner (scanner.ts)\<close>

definition categories :: "KeywordCategory list" where
  "categories = [
    \<lparr>kc_keywords = [
        ''verify account'', ''verify your account'', ''account suspended'', ''account locked'',
        ''confirm identity'', ''update payment'', ''payment failed'', ''billing problem'',
        ''unusual activity'', ''suspicious activity'', ''unauthorized access'',
        ''security alert'', ''verify payment'', ''confirm payment''],
      kc_severity = Critical, kc_weight = 10\<rparr>,
    \<lparr>kc_keywords = [
        ''urgent'', ''immediate action'', ''act now'', ''limited time'', ''expires today'',
        ''verify now'', ''click here now'', ''respond immediately'', ''final notice'',
        ''last chance'', ''time sensitive'', ''action required''],
      kc_severity = High, kc_weight = 8\<rparr>,
    \<lparr>kc_keywords = [
        ''gift card'', ''gift cards'', ''iTunes card'', ''Google Play card'', ''Amazon card'',
        ''prepaid card'', ''wire transfer'', ''send money'', ''western union'', ''moneygram'',
        ''bitcoin'', ''cryptocurrency'', ''crypto wallet''],
      kc_severity = Critical, kc_weight = 10\<rparr>,
    \<lparr>kc_keywords = [
        ''password'', ''social security'', ''ssn'', ''social security number'',
        ''bank account'', ''routing number'', ''credit card'', ''cvv'', ''pin number'',
        ''bank login'', ''online banking'', ''account number'', ''tax id''],
      kc_severity = Critical, kc_weight = 10\<rparr>,
    \<lparr>kc_keywords = [
        ''IRS'', ''internal revenue service'', ''tax refund'', ''tax return'',
        ''tax investigation'', ''federal agent'', ''government official'',
        ''department of justice'', ''FBI'', ''police department''],
      kc_severity = High, kc_weight = 9\<rparr>,
    \<lparr>kc_keywords = [
        ''Apple ID'', ''iCloud account'', ''Microsoft account'', ''Google account'',
        ''Amazon account'', ''PayPal account'', ''Netflix account'', ''Facebook account''],
      kc_severity = High, kc_weight = 8\<rparr>,
    \<lparr>kc_keywords = [
        ''click this link'', ''click here'', ''download attachment'', ''open attachment'',
        ''verify here'', ''login here'', ''reset password'', ''change password'',
        ''update information'', ''confirm details''],
      kc_severity = Medium, kc_weight = 6\<rparr>,
    \<lparr>kc_keywords = [
        ''congratulations'', ''you'' @ [CHR 0x27] @ ''ve won'', ''prize'', ''lottery'', ''winner'',
        ''claim your'', ''free gift'', ''bonus'', ''reward'', ''compensation''],
      kc_severity = Medium, kc_weight = 7\<rparr>,
    \<lparr>kc_keywords = [
        ''refund'', ''reimbursement'', ''overpayment'', ''owed money'',
        ''unclaimed funds'', ''pending payment'', ''payment processing''],
      kc_severity = Medium, kc_weight = 6\<rparr>,
    \<lparr>kc_keywords = [
        ''suspended'', ''deactivated'', ''disabled'', ''restricted'', ''blocked'',
        ''terminated'', ''cancelled'', ''expired'', ''invalid''],
      kc_severity = Medium, kc_weight = 5\<rparr>,
    \<lparr>kc_keywords = [
        ''confirm'', ''verify'', ''validate'', ''authenticate'', ''review'',
        ''update'', ''renew'', ''reactivate''],
      kc_severity = Low, kc_weight = 3\<rparr>]"

fun severityScores :: "Severity \<Rightarrow> int" where
  "severityScores Low = 1"
| "severityScores Medium = 3"
| "severityScores High = 6"
| "severityScores Critical = 10"

fun severityRanks :: "Severity \<Rightarrow> nat" where
  "severityRanks Low = 1"
| "severityRanks Medium = 2"
| "severityRanks High = 3"
| "severityRanks Critical = 4"

text \<open>
  The \<open>for\<close> loop of \<open>calculateOverallSeverity\<close> over the details, on the triple
  \<open>(maxRank, criticalCount, highCount)\<close>.
\<close>

fun severityLoop :: "MatchDetail list \<Rightarrow> nat \<times> nat \<times> nat \<Rightarrow> nat \<times> nat \<times> nat" where
  "severityLoop [] acc = acc"
| "severityLoop (detail # rest) (maxRank, criticalCount, highCount) =
     (let rank = severityRanks (md_severity detail)
      in severityLoop rest
           (if rank > maxRank then rank else maxRank,
            if md_severity detail = Critical then criticalCount + 1 else criticalCount,
            if md_severity detail = High then highCount + 1 else highCount))"

definition calculateOverallSeverity :: "MatchDetail list \<Rightarrow> Severity" where
  "calculateOverallSeverity ds =
     (if length ds = 0 then Low
      else case severityLoop ds (0, 0, 0) of (maxRank, criticalCount, highCount) \<Rightarrow>
        if criticalCount \<ge> 2 \<or> (criticalCount \<ge> 1 \<and> highCount \<ge> 1) then Critical
        else if maxRank = 4 then Critical
        else if maxRank = 3 then High
        else if maxRank = 2 then Medium
        else Low)"

text \<open>
  The state of \<open>scan\<close>'s loops: the \<open>details\<close> array, the \<open>matchedKeywords\<close> set (in
  insertion order, as \<open>Array.from\<close> lists it) and \<open>totalScore\<close>.
\<close>

record ScanState =
  st_details :: "MatchDetail list"
  st_matchedKeywords :: "string list"
  st_totalScore :: int

text \<open>The body of the \<open>while\<close> loop, for a match of \<open>keyword\<close> at \<open>position\<close>.\<close>

definition pushMatch :: "KeywordCategory \<Rightarrow> string \<Rightarrow> string \<Rightarrow> ScanState \<Rightarrow> nat \<Rightarrow> ScanState" where
  "pushMatch category keyword text st position =
     \<lparr>st_details = st_details st @
        [\<lparr>md_keyword = keyword, md_severity = kc_severity category, md_position = position,
          md_context = extractContext text position (length keyword)\<rparr>],
      st_matchedKeywords =
        (if keyword \<in> set (st_matchedKeywords st) then st_matchedKeywords st
         else st_matchedKeywords st @ [keyword]),
      st_totalScore = st_totalScore st + severityScores (kc_severity category) * kc_weight category\<rparr>"

text \<open>
  \<open>while ((match = regex.exec(text)) !== null) { ... }\<close>. A match of an empty keyword
  leaves \<open>lastIndex\<close> where it was, and the loop then never ends: the result is \<open>None\<close>.
\<close>

partial_function (option) matchLoop ::
  "KeywordCategory \<Rightarrow> string \<Rightarrow> string \<Rightarrow> nat \<Rightarrow> ScanState \<Rightarrow> ScanState option" where
  "matchLoop category keyword text lastIndex st =
     (case regexExec keyword text lastIndex of
        None \<Rightarrow> Some st
      | Some position \<Rightarrow>
          matchLoop category keyword text (position + length keyword)
            (pushMatch category keyword text st position))"

declare matchLoop.simps [code]

text \<open>\<open>for (const keyword of category.keywords)\<close>, each with a fresh regular expression.\<close>

fun keywordLoop :: "KeywordCategory \<Rightarrow> string list \<Rightarrow> string \<Rightarrow> ScanState \<Rightarrow> ScanState option" where
  "keywordLoop category [] text st = Some st"
| "keywordLoop category (keyword # rest) text st =
     (case matchLoop category keyword text 0 st of
        None \<Rightarrow> None
      | Some st' \<Rightarrow> keywordLoop category rest text st')"

text \<open>\<open>for (const category of this.categories)\<close>.\<close>

fun categoryLoop :: "KeywordCategory list \<Rightarrow> string \<Rightarrow> ScanState \<Rightarrow> ScanState option" where
  "categoryLoop [] text st = Some st"
| "categoryLoop (category # rest) text st =
     (case keywordLoop category (kc_keywords category) text st of
        None \<Rightarrow> None
      | Some st' \<Rightarrow> categoryLoop rest text st')"

text \<open>
  \<open>scan\<close>, with the scanner's category list as a parameter. (\<open>normalizedText\<close> is computed
  by the source and never used.)
\<close>

definition scan :: "KeywordCategory list \<Rightarrow> string \<Rightarrow> DetectionResult option" where
  "scan cats text =
     (case categoryLoop cats text \<lparr>st_details = [], st_matchedKeywords = [], st_totalScore = 0\<rparr> of
        None \<Rightarrow> None
      | Some st \<Rightarrow>
          Some \<lparr>flagged = length (st_details st) > 0,
                score = st_totalScore st,
                matches = st_matchedKeywords st,
                severity = calculateOverallSeverity (st_details st),
                details = st_details st\<rparr>)"

text \<open>
  The positions at which the \<open>while\<close> loop of \<open>scan\<close> finds \<open>keyword\<close>, as a total
  function: the leftmost match from \<open>lastIndex\<close> on, then the matches behind its end.
  It stops where a match would not move \<open>lastIndex\<close> forward (an empty keyword); for a
  non-empty keyword it lists what the loop visits.
\<close>

function matchPositions :: "string \<Rightarrow> string \<Rightarrow> nat \<Rightarrow> nat list" where
  "matchPositions keyword text lastIndex =
     (case regexExec keyword text lastIndex of
        None \<Rightarrow> []
      | Some position \<Rightarrow>
          if lastIndex < position + length keyword
          then position # matchPositions keyword text (position + length keyword)
          else [position])"
  by pat_completeness auto
termination
proof (relation "measure (\<lambda>(keyword, text, lastIndex). Suc (length text) - lastIndex)")
  show "wf (measure (\<lambda>(keyword, text, lastIndex). Suc (length text) - lastIndex))" by simp
next
  fix keyword t :: string and lastIndex position :: nat
  assume a: "regexExec keyword t lastIndex = Some position"
    and b: "lastIndex < position + length keyword"
  from a have "matchesAt keyword t position"
    unfolding regexExec_def find_Some_iff by blast
  then have "position + length keyword \<le> length t" by (simp add: matchesAt_def)
  with b show "((keyword, t, position + length keyword), (keyword, t, lastIndex))
      \<in> measure (\<lambda>(keyword, text, lastIndex). Suc (length text) - lastIndex)"
    by simp
qed

declare matchPositions.simps [simp del]

text \<open>
  Every match occurrence of a scan, in the order the loops meet them: the category, the
  keyword and the position.
\<close>

definition occurrences :: "KeywordCategory list \<Rightarrow> string \<Rightarrow> (KeywordCategory \<times> string \<times> nat) list" where
  "occurrences cats text =
     concat (map (\<lambda>category.
       concat (map (\<lambda>keyword. map (\<lambda>position. (category, keyword, position))
                                   (matchPositions keyword text 0))
                   (kc_keywords category)))
       cats)"

definition pushOcc :: "string \<Rightarrow> ScanState \<Rightarrow> KeywordCategory \<times> string \<times> nat \<Rightarrow> ScanState" where
  "pushOcc text st occ =
     (case occ of (category, keyword, position) \<Rightarrow> pushMatch category keyword text st position)"

definition detailOf :: "string \<Rightarrow> KeywordCategory \<times> string \<times> nat \<Rightarrow> MatchDetail" where
  "detailOf text occ =
     (case occ of (category, keyword, position) \<Rightarrow>
        \<lparr>md_keyword = keyword, md_severity = kc_severity category, md_position = position,
         md_context = extractContext text position (length keyword)\<rparr>)"

text \<open>The configurations in which no keyword is the empty string.\<close>

definition nonEmptyKeywords :: "KeywordCategory list \<Rightarrow> bool" where
  "nonEmptyKeywords cats = list_all (\<lambda>category. list_all (\<lambda>keyword. keyword \<noteq> []) (kc_keywords category)) cats"

text \<open>
  The escalation policy in the specification's words, on the multiset of the details'
  severities.
\<close>

definition highestSeverity :: "Severity multiset \<Rightarrow> Severity" where
  "highestSeverity M =
     (if Critical \<in># M then Critical
      else if High \<in># M then High
      else if Medium \<in># M then Medium
      else Low)"

definition spec_overallSeverity :: "Severity multiset \<Rightarrow> Severity" where
  "spec_overallSeverity M =
     (if count M Critical \<ge> 2 \<or> (count M Critical \<ge> 1 \<and> count M High \<ge> 1) then Critical
      else if M = {#} then Low
      else highestSeverity M)"

subsection \<open>addCustomKeyword and removeKeyword\<close>

text \<open>
  \<open>this.categories.find(cat => cat.severity === severity)\<close> returns a reference to the
  first category of that severity, and the \<open>push\<close> mutates it in place: in the model the
  first such category of the list is replaced.
\<close>

definition pushKeyword :: "string \<Rightarrow> KeywordCategory \<Rightarrow> KeywordCategory" where
  "pushKeyword lowered category =
     (if lowered \<in> set (kc_keywords category) then category
      else category\<lparr>kc_keywords := kc_keywords category @ [lowered]\<rparr>)"

fun updateFirst :: "Severity \<Rightarrow> (KeywordCategory \<Rightarrow> KeywordCategory) \<Rightarrow> KeywordCategory list \<Rightarrow> KeywordCategory list" where
  "updateFirst sev f [] = []"
| "updateFirst sev f (cat # rest) =
     (if kc_severity cat = sev then f cat # rest else cat # updateFirst sev f rest)"

text \<open>The \<open>weight\<close> argument is optional in the source and defaults to 5.\<close>

definition addCustomKeyword ::
  "KeywordCategory list \<Rightarrow> string \<Rightarrow> Severity \<Rightarrow> int option \<Rightarrow> KeywordCategory list" where
  "addCustomKeyword cats keyword sev weightArg =
     (let weight = (case weightArg of None \<Rightarrow> 5 | Some w \<Rightarrow> w)
      in case List.find (\<lambda>cat. kc_severity cat = sev) cats of
           None \<Rightarrow>
             cats @ [pushKeyword (toLowerCase keyword)
                       \<lparr>kc_keywords = [], kc_severity = sev, kc_weight = weight\<rparr>]
         | Some category \<Rightarrow> updateFirst sev (pushKeyword (toLowerCase keyword)) cats)"

text \<open>
  The loop of \<open>removeKeyword\<close>: \<open>indexOf\<close> and \<open>splice(index, 1)\<close> take the first
  entry equal to \<open>normalized\<close> out of a category, and \<open>removed\<close> records that one was found.
\<close>

fun removeLoop :: "string \<Rightarrow> KeywordCategory list \<Rightarrow> bool \<Rightarrow> bool \<times> KeywordCategory list" where
  "removeLoop normalized [] removed = (removed, [])"
| "removeLoop normalized (category # rest) removed =
     (if normalized \<in> set (kc_keywords category)
      then (case removeLoop normalized rest True of (r, rest') \<Rightarrow>
              (r, category\<lparr>kc_keywords := remove1 normalized (kc_keywords category)\<rparr> # rest'))
      else (case removeLoop normalized rest removed of (r, rest') \<Rightarrow> (r, category # rest')))"

definition removeKeyword :: "KeywordCategory list \<Rightarrow> string \<Rightarrow> bool \<times> KeywordCategory list" where
  "removeKeyword cats keyword = removeLoop (toLowerCase keyword) cats False"

text \<open>
  A text contains a phrase as a whole word when the phrase stands in it, character for
  character, between two word boundaries.
\<close>

definition containsWholeWord :: "string \<Rightarrow> string \<Rightarrow> bool" where
  "containsWholeWord text phrase =
     list_ex (\<lambda>p. wordBoundary text p \<and> p + length phrase \<le> length text \<and>
                  take (length phrase) (drop p text) = phrase \<and>
                  wordBoundary text (p + length phrase))
             [0 ..< Suc (length text)]"

text \<open>All keywords of a configuration, and whether the pattern of a keyword matches a text.\<close>

definition allKeywords :: "KeywordCategory list \<Rightarrow> string list" where
  "allKeywords cats = concat (map kc_keywords cats)"

definition keywordMatches :: "string \<Rightarrow> string \<Rightarrow> bool" where
  "keywordMatches keyword text = (regexExec keyword text 0 \<noteq> None)"

text \<open>
  ASCII strings: every character is a code unit below 128. On them \<open>toLowerCase\<close> and
  the canonicalisation of the \<open>i\<close> flag are those of the source.
\<close>

definition isAscii :: "string \<Rightarrow> bool" where
  "isAscii s = list_all (\<lambda>c. (of_char c :: nat) < 128) s"

definition asciiKeywords :: "KeywordCategory list \<Rightarrow> bool" where
  "asciiKeywords cats = list_all (\<lambda>category. list_all isAscii (kc_keywords category)) cats"

definition distinctKeywords :: "KeywordCategory list \<Rightarrow> bool" where
  "distinctKeywords cats = list_all (\<lambda>category. distinct (kc_keywords category)) cats"

section \<open>AIClassifier (scanner.ts, second part)\<close>

text \<open>interface AIVerdict.\<close>

record AIVerdict =
  isSuspicious :: bool
  reason :: string
  confidence :: real

text \<open>The fields of the classifier object.\<close>

record AIClassifier =
  apiEndpoint :: string
  apiKey :: string
  mockMode :: bool

definition startsWith :: "string \<Rightarrow> string \<Rightarrow> bool" where
  "startsWith s pre = (take (length pre) s = pre)"

text \<open>\<open>String.prototype.includes\<close>.\<close>

fun includesStr :: "string \<Rightarrow> string \<Rightarrow> bool" where
  "includesStr [] sub = (sub = [])"
| "includesStr (c # cs) sub = (startsWith (c # cs) sub \<or> includesStr cs sub)"

text \<open>
  \<open>(message.match(/https?:\/\//g) || []).length\<close>: the matches of \<open>http://\<close> and
  \<open>https://\<close>, counted from left to right without overlap.
\<close>

fun urlCount :: "string \<Rightarrow> nat" where
  "urlCount [] = 0"
| "urlCount (c # cs) =
     (if startsWith (c # cs) ''http://'' then Suc (urlCount (drop 6 cs))
      else if startsWith (c # cs) ''https://'' then Suc (urlCount (drop 7 cs))
      else urlCount cs)"

text \<open>\<open>Array.prototype.join\<close>.\<close>

fun join :: "string \<Rightarrow> string list \<Rightarrow> string" where
  "join sep [] = []"
| "join sep [x] = x"
| "join sep (x # y # rest) = x @ sep @ join sep (y # rest)"

text \<open>
  One \<open>if\<close> statement of \<open>mockClassify\<close> on the pair \<open>(suspicionScore, reasons)\<close>:
  \<open>if (triggered) { suspicionScore += increment; reasons.push(fragment); }\<close>.
\<close>

definition signal :: "bool \<Rightarrow> real \<Rightarrow> string \<Rightarrow> real \<times> string list \<Rightarrow> real \<times> string list" where
  "signal triggered increment fragment acc =
     (if triggered then (fst acc + increment, snd acc @ [fragment]) else acc)"

text \<open>\<open>mockClassify\<close>: the eight \<open>if\<close> statements in the order of the source.\<close>

definition mockClassify :: "string \<Rightarrow> AIVerdict" where
  "mockClassify message =
     (let lowerMsg = toLowerCase message;
          acc = (0, []);
          acc = signal (includesStr lowerMsg ''urgent'' \<or> includesStr lowerMsg ''immediate'')
                  0.3 ''Uses urgent language'' acc;
          acc = signal (includesStr lowerMsg ''click'' \<and> includesStr lowerMsg ''link'')
                  0.25 ''Contains clickable link request'' acc;
          acc = signal (includesStr lowerMsg ''verify'' \<or> includesStr lowerMsg ''confirm'')
                  0.2 ''Requests verification'' acc;
          acc = signal (includesStr lowerMsg ''account'' \<and>
                        (includesStr lowerMsg ''suspend'' \<or> includesStr lowerMsg ''lock''))
                  0.4 ''Threatens account suspension'' acc;
          acc = signal (includesStr lowerMsg ''password'' \<or> includesStr lowerMsg ''credit card'' \<or>
                        includesStr lowerMsg ''ssn'')
                  0.5 ''Requests sensitive information'' acc;
          acc = signal (includesStr lowerMsg ''gift card'' \<or> includesStr lowerMsg ''wire transfer'')
                  0.6 ''Requests unusual payment method'' acc;
          acc = signal (urlCount message \<ge> 2) 0.2 ''Contains multiple URLs'' acc;
          acc = signal (length message > 500 \<and> fst acc > 0.3)
                  0.1 ''Long message with suspicious content'' acc;
          suspicionScore = fst acc;
          reasons = snd acc;
          isSusp = (suspicionScore \<ge> 0.4);
          conf = min suspicionScore 1.0
      in \<lparr>isSuspicious = isSusp,
          reason = (if isSusp then join ''; '' reasons
                    else ''No significant suspicious patterns detected''),
          confidence = conf\<rparr>)"

text \<open>
  What the request of the delegated mode can come to. \<open>fetch\<close> rejects
  (\<open>TransportError\<close>), or it resolves to a response with a status; \<open>response.json()\<close>
  then rejects, or yields \<open>null\<close>, whose property read throws (both
  \<open>MalformedBody\<close>), or it yields a value that is read through the three properties
  \<open>isSuspicious\<close>, \<open>reason\<close> and \<open>confidence\<close>, each absent or of the type that
  interface \<open>AIVerdict\<close> gives it.
\<close>

record ResponseData =
  rd_isSuspicious :: "bool option"
  rd_reason :: "string option"
  rd_confidence :: "real option"

datatype ResponseBody = MalformedBody | Data ResponseData

datatype FetchOutcome = TransportError | Response nat ResponseBody

datatype error = ApiError nat | FetchFailed | JsonFailed

text \<open>\<open>response.ok\<close>: a status from 200 to 299.\<close>

definition responseOk :: "nat \<Rightarrow> bool" where
  "responseOk status = (200 \<le> status \<and> status \<le> 299)"

text \<open>
  The body of the \<open>try\<close> block; \<open>Inl\<close> is a thrown exception. \<open>x || d\<close> is \<open>d\<close>
  when \<open>x\<close> is absent or falsy (\<open>false\<close>, the empty string, 0).
\<close>

definition delegatedClassify :: "FetchOutcome \<Rightarrow> error + AIVerdict" where
  "delegatedClassify outcome =
     (case outcome of
        TransportError \<Rightarrow> Inl FetchFailed
      | Response status body \<Rightarrow>
          if \<not> responseOk status then Inl (ApiError status)
          else (case body of
                  MalformedBody \<Rightarrow> Inl JsonFailed
                | Data d \<Rightarrow>
                    Inr \<lparr>isSuspicious = (case rd_isSuspicious d of Some True \<Rightarrow> True | _ \<Rightarrow> False),
                         reason = (case rd_reason d of
                                     None \<Rightarrow> ''No explanation provided''
                                   | Some r \<Rightarrow> if r = [] then ''No explanation provided'' else r),
                         confidence = (case rd_confidence d of
                                         None \<Rightarrow> 0.5
                                       | Some c \<Rightarrow> if c = 0 then 0.5 else c)\<rparr>))"

text \<open>
  \<open>classifyWithAI\<close>, with the outcome of the request as a parameter. The \<open>catch\<close>
  clause turns every exception of the \<open>try\<close> block into the heuristic verdict.
\<close>

definition classifyWithAI :: "AIClassifier \<Rightarrow> FetchOutcome \<Rightarrow> string \<Rightarrow> error + AIVerdict" where
  "classifyWithAI this outcome message =
     (if mockMode this \<or> apiEndpoint this = [] then Inr (mockClassify message)
      else case delegatedClassify outcome of
             Inl e \<Rightarrow> Inr (mockClassify message)
           | Inr verdict \<Rightarrow> Inr verdict)"

text \<open>The request of the delegated mode has failed.\<close>

definition requestFailed :: "FetchOutcome \<Rightarrow> bool" where
  "requestFailed outcome =
     (case outcome of
        TransportError \<Rightarrow> True
      | Response status body \<Rightarrow> \<not> responseOk status \<or> body = MalformedBody)"

text \<open>
  The signals of the heuristic evaluator in the specification's words: the increment and
  the reason fragment of every signal that the message triggers, the compounding bonus
  last.
\<close>

definition triggeredIf :: "bool \<Rightarrow> real \<Rightarrow> string \<Rightarrow> (real \<times> string) list" where
  "triggeredIf triggered increment fragment = (if triggered then [(increment, fragment)] else [])"

definition spec_baseSignals :: "string \<Rightarrow> (real \<times> string) list" where
  "spec_baseSignals message =
     (let m = toLowerCase message
      in triggeredIf (includesStr m ''urgent'' \<or> includesStr m ''immediate'')
           0.3 ''Uses urgent language'' @
         triggeredIf (includesStr m ''click'' \<and> includesStr m ''link'')
           0.25 ''Contains clickable link request'' @
         triggeredIf (includesStr m ''verify'' \<or> includesStr m ''confirm'')
           0.2 ''Requests verification'' @
         triggeredIf (includesStr m ''account'' \<and> (includesStr m ''suspend'' \<or> includesStr m ''lock''))
           0.4 ''Threatens account suspension'' @
         triggeredIf (includesStr m ''password'' \<or> includesStr m ''credit card'' \<or> includesStr m ''ssn'')
           0.5 ''Requests sensitive information'' @
         triggeredIf (includesStr m ''gift card'' \<or> includesStr m ''wire transfer'')
           0.6 ''Requests unusual payment method'' @
         triggeredIf (urlCount message \<ge> 2) 0.2 ''Contains multiple URLs'')"

definition spec_signals :: "string \<Rightarrow> (real \<times> string) list" where
  "spec_signals message =
     spec_baseSignals message @
     triggeredIf (length message > 500 \<and> sum_list (map fst (spec_baseSignals message)) > 0.3)
       0.1 ''Long message with suspicious content''"

definition spec_reason :: "string \<Rightarrow> string" where
  "spec_reason message =
     (if spec_signals message = [] then ''No significant suspicious patterns detected''
      else join ''; '' (map snd (spec_signals message)))"

section \<open>The result combiners\<close>

text \<open>
  interface CombinedAnalysis, without \<open>recommendation\<close> and \<open>timestamp\<close>, which
  no other field depends on.
\<close>

record CombinedAnalysis =
  ca_isSuspicious :: bool
  overallSeverity :: Severity
  keywordDetection :: DetectionResult
  aiDetection :: AIVerdict
  finalScore :: real
  messageText :: string

subsection \<open>background.ts\<close>

definition normalizeScore :: "real \<Rightarrow> real" where
  "normalizeScore rawScore = (let maxExpectedScore = 200 in min (rawScore / maxExpectedScore) 1.0)"

definition determineOverallSeverity :: "Severity \<Rightarrow> bool \<Rightarrow> real \<Rightarrow> Severity" where
  "determineOverallSeverity keywordSeverity aiSuspicious sc =
     (if keywordSeverity = Critical \<or> (aiSuspicious \<and> sc \<ge> 0.8) then Critical
      else if keywordSeverity = High \<or> (aiSuspicious \<and> sc \<ge> 0.6) then High
      else if keywordSeverity = Medium \<or> sc \<ge> 0.4 then Medium
      else Low)"

text \<open>
  \<open>analyzeText\<close> of background.ts from the scanner's result and the classifier's verdict
  on: the computation of the analysis object.
\<close>

definition analyzeText :: "DetectionResult \<Rightarrow> AIVerdict \<Rightarrow> string \<Rightarrow> CombinedAnalysis" where
  "analyzeText keywordResult aiResult text =
     (let keywordScore = normalizeScore (real_of_int (score keywordResult));
          aiScore = confidence aiResult;
          combinedScore = (keywordScore * 0.6) + (aiScore * 0.4);
          isSusp = (combinedScore \<ge> 0.5 \<or> severity keywordResult = Critical \<or>
                    isSuspicious aiResult);
          overall = determineOverallSeverity (severity keywordResult) (isSuspicious aiResult)
                      combinedScore
      in \<lparr>ca_isSuspicious = isSusp, overallSeverity = overall,
          keywordDetection = keywordResult, aiDetection = aiResult,
          finalScore = combinedScore, messageText = text\<rparr>)"

subsection \<open>The second background script (part 002)\<close>

definition combineResults :: "DetectionResult \<Rightarrow> AIVerdict \<Rightarrow> string \<Rightarrow> CombinedAnalysis" where
  "combineResults keywordResult aiResult text =
     (let keywordScore = real_of_int (score keywordResult);
          aiScore = confidence aiResult * 100;
          final = (keywordScore * 0.6) + (aiScore * 0.4);
          isSusp = (flagged keywordResult \<or> isSuspicious aiResult);
          overall =
            (if severity keywordResult = Critical \<or>
                (isSuspicious aiResult \<and> confidence aiResult > 0.8) then Critical
             else if severity keywordResult = High \<or>
                (isSuspicious aiResult \<and> confidence aiResult > 0.6) then High
             else if severity keywordResult = Medium \<or> isSuspicious aiResult then Medium
             else Low)
      in \<lparr>ca_isSuspicious = isSusp, overallSeverity = overall,
          keywordDetection = keywordResult, aiDetection = aiResult,
          finalScore = final, messageText = text\<rparr>)"

text \<open>The combination rules in the specification's words.\<close>

definition spec_combinedSeverity :: "Severity \<Rightarrow> bool \<Rightarrow> real \<Rightarrow> Severity" where
  "spec_combinedSeverity keywordSeverity aiSuspicious conf =
     (if keywordSeverity = Critical \<or> (aiSuspicious \<and> conf \<ge> 0.8) then Critical
      else if keywordSeverity = High \<or> (aiSuspicious \<and> conf \<ge> 0.6) then High
      else if keywordSeverity = Medium \<or> aiSuspicious then Medium
      else Low)"


definition spec_finalScore :: "DetectionResult \<Rightarrow> AIVerdict \<Rightarrow> real" where
  "spec_finalScore keywordResult aiResult =
     0.6 * max 0 (min (real_of_int (score keywordResult) / 200) 1) + 0.4 * confidence aiResult"

section \<open>The keyword scanner\<close>

subsection \<open>The match loop\<close>

lemma regexExec_SomeD:
  assumes "regexExec keyword t lastIndex = Some p"
  shows "lastIndex \<le> p" and "p + length keyword \<le> length t" and "matchesAt keyword t p"
proof -
  from assms have "p \<in> set [lastIndex ..< Suc (length t)] \<and> matchesAt keyword t p"
    unfolding regexExec_def find_Some_iff by (metis nth_mem)
  then show "lastIndex \<le> p" and "matchesAt keyword t p" by auto
  then show "p + length keyword \<le> length t" by (simp add: matchesAt_def)
qed

lemma regexExec_None_iff:
  "regexExec keyword t lastIndex = None \<longleftrightarrow> (\<forall>p\<ge>lastIndex. \<not> matchesAt keyword t p)"
  unfolding regexExec_def find_None_iff
  by (auto simp: matchesAt_def)

lemma matchPositions_sound:
  "p \<in> set (matchPositions keyword t lastIndex) \<Longrightarrow> lastIndex \<le> p \<and> matchesAt keyword t p"
proof (induction keyword t lastIndex rule: matchPositions.induct)
  case (1 keyword t lastIndex)
  show ?case
  proof (cases "regexExec keyword t lastIndex")
    case None
    with "1.prems" show ?thesis by (subst (asm) matchPositions.simps) simp
  next
    case (Some q)
    note q = regexExec_SomeD [OF Some]
    show ?thesis
    proof (cases "lastIndex < q + length keyword")
      case True
      from "1.prems" Some True have "p = q \<or> p \<in> set (matchPositions keyword t (q + length keyword))"
        by (subst (asm) matchPositions.simps) auto
      then show ?thesis
      proof
        assume "p = q"
        with q show ?thesis by simp
      next
        assume "p \<in> set (matchPositions keyword t (q + length keyword))"
        from "1.IH" [OF Some True this] q(1) show ?thesis by simp
      qed
    next
      case False
      from "1.prems" Some False have "p = q"
        by (subst (asm) matchPositions.simps) auto
      with q show ?thesis by simp
    qed
  qed
qed

lemma occurrences_sound:
  "(category, keyword, position) \<in> set (occurrences cats t) \<Longrightarrow>
   category \<in> set cats \<and> keyword \<in> set (kc_keywords category) \<and> matchesAt keyword t position"
  by (auto simp: occurrences_def dest: matchPositions_sound)

lemma matchLoop_total:
  "keyword \<noteq> [] \<Longrightarrow>
   matchLoop category keyword t lastIndex st =
     Some (foldl (pushMatch category keyword t) st (matchPositions keyword t lastIndex))"
proof (induction keyword t lastIndex arbitrary: st rule: matchPositions.induct)
  case (1 keyword t lastIndex)
  show ?case
  proof (cases "regexExec keyword t lastIndex")
    case None
    then show ?thesis
      by (subst matchLoop.simps, subst matchPositions.simps) simp
  next
    case (Some position)
    from regexExec_SomeD(1)[OF Some] "1.prems"
    have lt: "lastIndex < position + length keyword" by (cases keyword) auto
    show ?thesis
      by (subst matchLoop.simps, subst matchPositions.simps)
         (simp add: Some lt "1.IH"[OF Some lt "1.prems"])
  qed
qed

lemma foldl_pushMatch_pushOcc:
  "foldl (pushMatch category keyword t) st ps =
   foldl (pushOcc t) st (map (\<lambda>position. (category, keyword, position)) ps)"
  by (induction ps arbitrary: st) (simp_all add: pushOcc_def)

lemma keywordLoop_total:
  "list_all (\<lambda>keyword. keyword \<noteq> []) ks \<Longrightarrow>
   keywordLoop category ks t st =
     Some (foldl (pushOcc t) st
       (concat (map (\<lambda>keyword. map (\<lambda>position. (category, keyword, position))
                                   (matchPositions keyword t 0)) ks)))"
  by (induction ks arbitrary: st) (simp_all add: matchLoop_total foldl_pushMatch_pushOcc)

lemma categoryLoop_total:
  "nonEmptyKeywords cats \<Longrightarrow>
   categoryLoop cats t st = Some (foldl (pushOcc t) st (occurrences cats t))"
  by (induction cats arbitrary: st)
     (simp_all add: nonEmptyKeywords_def occurrences_def keywordLoop_total)

lemma foldl_pushOcc_details:
  "st_details (foldl (pushOcc t) st occs) = st_details st @ map (detailOf t) occs"
  by (induction occs arbitrary: st)
     (auto simp: pushOcc_def pushMatch_def detailOf_def split: prod.splits)

lemma foldl_pushOcc_totalScore:
  "st_totalScore (foldl (pushOcc t) st occs) =
   st_totalScore st +
   (\<Sum>(category, keyword, position) \<leftarrow> occs.
       severityScores (kc_severity category) * kc_weight category)"
  by (induction occs arbitrary: st)
     (auto simp: pushOcc_def pushMatch_def split: prod.splits)

lemma scan_total:
  assumes "nonEmptyKeywords cats"
  shows "\<exists>r. scan cats t = Some r \<and>
     details r = map (detailOf t) (occurrences cats t) \<and>
     flagged r = (occurrences cats t \<noteq> []) \<and>
     severity r = calculateOverallSeverity (details r) \<and>
     score r = (\<Sum>(category, keyword, position) \<leftarrow> occurrences cats t.
                 severityScores (kc_severity category) * kc_weight category)"
  by (simp add: scan_def categoryLoop_total[OF assms] foldl_pushOcc_details
        foldl_pushOcc_totalScore)

lemma severityLoop_eq:
  "severityLoop ds (m, c, h) =
     (max m (if ds = [] then 0 else severityRanks (highestSeverity (mset (map md_severity ds)))),
      c + count (mset (map md_severity ds)) Critical,
      h + count (mset (map md_severity ds)) High)"
proof (induction ds arbitrary: m c h)
  case Nil
  then show ?case by simp
next
  case (Cons d ds)
  show ?case
    by (cases "md_severity d"; cases "ds = []")
       (auto simp: Cons.IH highestSeverity_def Let_def max_def)
qed

lemma calculateOverallSeverity_spec:
  "calculateOverallSeverity ds = spec_overallSeverity (mset (map md_severity ds))"
proof (cases "ds = []")
  case True
  then show ?thesis by (simp add: calculateOverallSeverity_def spec_overallSeverity_def)
next
  case False
  define M where "M = mset (map md_severity ds)"
  from False have ne: "M \<noteq> {#}" by (simp add: M_def)
  from False have sl: "severityLoop ds (0, 0, 0) =
      (severityRanks (highestSeverity M), count M Critical, count M High)"
    by (simp add: severityLoop_eq M_def)
  have "calculateOverallSeverity ds =
      (if count M Critical \<ge> 2 \<or> (count M Critical \<ge> 1 \<and> count M High \<ge> 1) then Critical
       else highestSeverity M)"
    using False by (cases "highestSeverity M") (simp_all add: calculateOverallSeverity_def sl)
  with ne show ?thesis by (simp add: spec_overallSeverity_def M_def)
qed

lemma highestSeverity_max:
  "M \<noteq> {#} \<Longrightarrow> highestSeverity M \<in># M \<and>
     (\<forall>s \<in># M. severityRanks s \<le> severityRanks (highestSeverity M))"
proof -
  assume "M \<noteq> {#}"
  then obtain x where x: "x \<in># M" by (auto simp: multiset_nonemptyE)
  have "highestSeverity M \<in># M"
    using x by (cases x) (auto simp: highestSeverity_def)
  moreover have "severityRanks s \<le> severityRanks (highestSeverity M)" if "s \<in># M" for s
    using that by (cases s) (auto simp: highestSeverity_def)
  ultimately show ?thesis by blast
qed

lemma nonEmptyKeywords_categories: "nonEmptyKeywords categories"
  by (simp add: nonEmptyKeywords_def categories_def)

text \<open>A scan of a configuration of two categories.\<close>

lemma scan_example:
  "scan [\<lparr>kc_keywords = [''urgent''], kc_severity = High, kc_weight = 8\<rparr>,
         \<lparr>kc_keywords = [''wire transfer''], kc_severity = Critical, kc_weight = 10\<rparr>]
        ''Urgent: wire transfer, urgent'' =
   Some \<lparr>flagged = True, score = 196, matches = [''urgent'', ''wire transfer''],
         severity = Critical,
         details =
           [\<lparr>md_keyword = ''urgent'', md_severity = High, md_position = 0,
              md_context = ''Urgent: wire transfer, urgent''\<rparr>,
            \<lparr>md_keyword = ''urgent'', md_severity = High, md_position = 23,
              md_context = ''Urgent: wire transfer, urgent''\<rparr>,
            \<lparr>md_keyword = ''wire transfer'', md_severity = Critical, md_position = 8,
              md_context = ''Urgent: wire transfer, urgent''\<rparr>]\<rparr>"
  by code_simp

lemma occurrences_example:
  "occurrences
     [\<lparr>kc_keywords = [''urgent''], kc_severity = High, kc_weight = 8\<rparr>,
      \<lparr>kc_keywords = [''wire transfer''], kc_severity = Critical, kc_weight = 10\<rparr>]
     ''Urgent: wire transfer, urgent'' =
   [(\<lparr>kc_keywords = [''urgent''], kc_severity = High, kc_weight = 8\<rparr>, ''urgent'', 0),
    (\<lparr>kc_keywords = [''urgent''], kc_severity = High, kc_weight = 8\<rparr>, ''urgent'', 23),
    (\<lparr>kc_keywords = [''wire transfer''], kc_severity = Critical, kc_weight = 10\<rparr>,
     ''wire transfer'', 8)]"
  by code_simp

text \<open>
  C1. In every configuration without an empty keyword \<open>scan\<close> returns, and the severity
  of its result is a function of the multiset of the severities of its details: critical
  when at least two details are critical or a critical and a high detail occur together,
  low when there is no detail, and otherwise the severity of the highest rank among the
  details.
\<close>

theorem scan_severity_escalation:
  assumes "nonEmptyKeywords cats"
  shows "\<exists>r. scan cats text = Some r \<and>
     severity r = spec_overallSeverity (mset (map md_severity (details r))) \<and>
     (details r \<noteq> [] \<longrightarrow>
        highestSeverity (mset (map md_severity (details r))) \<in># mset (map md_severity (details r)) \<and>
        (\<forall>s \<in># mset (map md_severity (details r)).
           severityRanks s \<le> severityRanks (highestSeverity (mset (map md_severity (details r))))))"
proof -
  from scan_total [OF assms, of "text"] obtain r where r: "scan cats text = Some r"
    "severity r = calculateOverallSeverity (details r)" by blast
  have "details r \<noteq> [] \<Longrightarrow> mset (map md_severity (details r)) \<noteq> {#}" by simp
  with r show ?thesis
    using highestSeverity_max [of "mset (map md_severity (details r))"]
    by (auto simp: calculateOverallSeverity_spec)
qed

theorem scan_severity_escalation_witness:
  "nonEmptyKeywords categories \<and>
   (\<exists>r. scan categories ''verify account and send a wire transfer'' = Some r \<and>
        severity r = spec_overallSeverity (mset (map md_severity (details r)))) \<and>
   nonEmptyKeywords
     [\<lparr>kc_keywords = [''urgent''], kc_severity = High, kc_weight = 8\<rparr>,
      \<lparr>kc_keywords = [''wire transfer''], kc_severity = Critical, kc_weight = 10\<rparr>] \<and>
   (\<exists>r. scan [\<lparr>kc_keywords = [''urgent''], kc_severity = High, kc_weight = 8\<rparr>,
               \<lparr>kc_keywords = [''wire transfer''], kc_severity = Critical, kc_weight = 10\<rparr>]
              ''Urgent: wire transfer, urgent'' = Some r \<and>
        map md_severity (details r) = [High, High, Critical] \<and>
        spec_overallSeverity (mset (map md_severity (details r))) = Critical \<and>
        severity r = Critical)"
proof -
  let ?cats = "[\<lparr>kc_keywords = [''urgent''], kc_severity = High, kc_weight = 8\<rparr>,
      \<lparr>kc_keywords = [''wire transfer''], kc_severity = Critical, kc_weight = 10\<rparr>]"
  have n: "nonEmptyKeywords ?cats" by (simp add: nonEmptyKeywords_def)
  from scan_severity_escalation [OF n, of "''Urgent: wire transfer, urgent''"]
  obtain r where r: "scan ?cats ''Urgent: wire transfer, urgent'' = Some r"
    "severity r = spec_overallSeverity (mset (map md_severity (details r)))"
    by blast
  from r(1) have d: "map md_severity (details r) = [High, High, Critical]"
    by (auto simp: scan_example)
  have s: "spec_overallSeverity (mset (map md_severity (details r))) = Critical"
    unfolding d by (simp add: spec_overallSeverity_def)
  have "\<exists>r. scan ?cats ''Urgent: wire transfer, urgent'' = Some r \<and>
        map md_severity (details r) = [High, High, Critical] \<and>
        spec_overallSeverity (mset (map md_severity (details r))) = Critical \<and>
        severity r = Critical"
  proof (intro exI conjI)
    show "scan ?cats ''Urgent: wire transfer, urgent'' = Some r" by (fact r(1))
    show "map md_severity (details r) = [High, High, Critical]" by (fact d)
    show "spec_overallSeverity (mset (map md_severity (details r))) = Critical" by (fact s)
    show "severity r = Critical" unfolding r(2) by (fact s)
  qed
  moreover from scan_severity_escalation [OF nonEmptyKeywords_categories,
      of "''verify account and send a wire transfer''"]
  have "\<exists>r. scan categories ''verify account and send a wire transfer'' = Some r \<and>
        severity r = spec_overallSeverity (mset (map md_severity (details r)))"
    by blast
  ultimately show ?thesis using n nonEmptyKeywords_categories by (intro conjI)
qed

text \<open>
  C2. In every configuration without an empty keyword \<open>scan\<close> returns; its details
  are the match occurrences, one detail for each, and its score is the sum over the
  occurrences of the severity score of the occurrence's category times the weight of
  that category, where the severity scores are 1, 3, 6 and 10. Every occurrence is a
  match of a keyword of a category of the configuration.
\<close>

theorem scan_score_sum:
  assumes "nonEmptyKeywords cats"
  shows "\<exists>r. scan cats text = Some r \<and>
     details r = map (detailOf text) (occurrences cats text) \<and>
     score r = (\<Sum>(category, keyword, position) \<leftarrow> occurrences cats text.
                 severityScores (kc_severity category) * kc_weight category) \<and>
     (\<forall>(category, keyword, position) \<in> set (occurrences cats text).
         category \<in> set cats \<and> keyword \<in> set (kc_keywords category) \<and>
         matchesAt keyword text position) \<and>
     severityScores Low = 1 \<and> severityScores Medium = 3 \<and>
     severityScores High = 6 \<and> severityScores Critical = 10"
proof -
  from scan_total [OF assms, of "text"] obtain r where r: "scan cats text = Some r"
    "details r = map (detailOf text) (occurrences cats text)"
    "score r = (\<Sum>(category, keyword, position) \<leftarrow> occurrences cats text.
                 severityScores (kc_severity category) * kc_weight category)"
    by blast
  have "\<forall>(category, keyword, position) \<in> set (occurrences cats text).
         category \<in> set cats \<and> keyword \<in> set (kc_keywords category) \<and>
         matchesAt keyword text position"
    using occurrences_sound by blast
  with r show ?thesis by simp
qed

theorem scan_score_sum_witness:
  "nonEmptyKeywords categories \<and>
   (\<exists>r. scan categories ''verify account and send a wire transfer'' = Some r \<and>
     details r = map (detailOf ''verify account and send a wire transfer'')
                   (occurrences categories ''verify account and send a wire transfer'') \<and>
     score r = (\<Sum>(category, keyword, position) \<leftarrow>
                   occurrences categories ''verify account and send a wire transfer''.
                 severityScores (kc_severity category) * kc_weight category)) \<and>
   nonEmptyKeywords
     [\<lparr>kc_keywords = [''urgent''], kc_severity = High, kc_weight = 8\<rparr>,
      \<lparr>kc_keywords = [''wire transfer''], kc_severity = Critical, kc_weight = 10\<rparr>] \<and>
   (\<exists>r. scan [\<lparr>kc_keywords = [''urgent''], kc_severity = High, kc_weight = 8\<rparr>,
               \<lparr>kc_keywords = [''wire transfer''], kc_severity = Critical, kc_weight = 10\<rparr>]
              ''Urgent: wire transfer, urgent'' = Some r \<and>
        map (\<lambda>d. (md_keyword d, md_position d)) (details r) =
          [(''urgent'', 0), (''urgent'', 23), (''wire transfer'', 8)] \<and>
        score r = 6 * 8 + 6 * 8 + 10 * 10)"
proof -
  let ?cats = "[\<lparr>kc_keywords = [''urgent''], kc_severity = High, kc_weight = 8\<rparr>,
      \<lparr>kc_keywords = [''wire transfer''], kc_severity = Critical, kc_weight = 10\<rparr>]"
  have n: "nonEmptyKeywords ?cats" by (simp add: nonEmptyKeywords_def)
  from scan_score_sum [OF n, of "''Urgent: wire transfer, urgent''"]
  obtain r where r: "scan ?cats ''Urgent: wire transfer, urgent'' = Some r"
    "details r = map (detailOf ''Urgent: wire transfer, urgent'')
                   (occurrences ?cats ''Urgent: wire transfer, urgent'')"
    "score r = (\<Sum>(category, keyword, position) \<leftarrow>
                   occurrences ?cats ''Urgent: wire transfer, urgent''.
                 severityScores (kc_severity category) * kc_weight category)"
    by blast
  have d: "map (\<lambda>d. (md_keyword d, md_position d)) (details r) =
          [(''urgent'', 0), (''urgent'', 23), (''wire transfer'', 8)]"
    by (simp add: r(2) occurrences_example detailOf_def)
  have s: "score r = 6 * 8 + 6 * 8 + 10 * 10"
    by (simp add: r(3) occurrences_example)
  have "\<exists>r. scan ?cats ''Urgent: wire transfer, urgent'' = Some r \<and>
        map (\<lambda>d. (md_keyword d, md_position d)) (details r) =
          [(''urgent'', 0), (''urgent'', 23), (''wire transfer'', 8)] \<and>
        score r = 6 * 8 + 6 * 8 + 10 * 10"
  proof (intro exI conjI)
    show "scan ?cats ''Urgent: wire transfer, urgent'' = Some r" by (fact r(1))
    show "map (\<lambda>d. (md_keyword d, md_position d)) (details r) =
          [(''urgent'', 0), (''urgent'', 23), (''wire transfer'', 8)]" by (fact d)
    show "score r = 6 * 8 + 6 * 8 + 10 * 10" by (fact s)
  qed
  moreover from scan_score_sum [OF nonEmptyKeywords_categories,
      of "''verify account and send a wire transfer''"]
  have "\<exists>r. scan categories ''verify account and send a wire transfer'' = Some r \<and>
     details r = map (detailOf ''verify account and send a wire transfer'')
                   (occurrences categories ''verify account and send a wire transfer'') \<and>
     score r = (\<Sum>(category, keyword, position) \<leftarrow>
                   occurrences categories ''verify account and send a wire transfer''.
                 severityScores (kc_severity category) * kc_weight category)"
    by blast
  ultimately show ?thesis using n nonEmptyKeywords_categories by (intro conjI)
qed

subsection \<open>Which keywords a scan reports\<close>

lemma keywordMatches_iff: "keywordMatches keyword t \<longleftrightarrow> (\<exists>p. matchesAt keyword t p)"
  by (auto simp: keywordMatches_def regexExec_None_iff)

lemma matchPositions_Nil_iff:
  "matchPositions keyword t lastIndex = [] \<longleftrightarrow> regexExec keyword t lastIndex = None"
  by (subst matchPositions.simps) (simp split: option.splits)

lemma occurrences_iff:
  "(category, keyword, position) \<in> set (occurrences cats t) \<longleftrightarrow>
     category \<in> set cats \<and> keyword \<in> set (kc_keywords category) \<and>
     position \<in> set (matchPositions keyword t 0)"
  by (auto simp: occurrences_def)

lemma keyword_detailOf: "md_keyword (detailOf t occ) = fst (snd occ)"
  by (simp add: detailOf_def split: prod.splits)

lemma occurrences_keywords:
  "(\<lambda>occ. fst (snd occ)) ` set (occurrences cats t) = {k \<in> set (allKeywords cats). keywordMatches k t}"
proof -
  have "k \<in> (\<lambda>occ. fst (snd occ)) ` set (occurrences cats t) \<longleftrightarrow>
        k \<in> set (allKeywords cats) \<and> keywordMatches k t" for k
  proof -
    have "k \<in> (\<lambda>occ. fst (snd occ)) ` set (occurrences cats t) \<longleftrightarrow>
          (\<exists>c p. (c, k, p) \<in> set (occurrences cats t))"
      by (force simp: image_iff)
    also have "\<dots> \<longleftrightarrow> (\<exists>c \<in> set cats. k \<in> set (kc_keywords c) \<and> matchPositions k t 0 \<noteq> [])"
      by (auto simp: occurrences_iff dest: length_pos_if_in_set intro: hd_in_set)
    also have "\<dots> \<longleftrightarrow> k \<in> set (allKeywords cats) \<and> keywordMatches k t"
      by (auto simp: allKeywords_def keywordMatches_def matchPositions_Nil_iff)
    finally show ?thesis .
  qed
  then show ?thesis by blast
qed

lemma scan_keywords:
  assumes "nonEmptyKeywords cats"
  shows "\<exists>r. scan cats t = Some r \<and>
     md_keyword ` set (details r) = {k \<in> set (allKeywords cats). keywordMatches k t} \<and>
     flagged r = (\<exists>k \<in> set (allKeywords cats). keywordMatches k t)"
proof -
  from scan_total [OF assms, of t] obtain r where r: "scan cats t = Some r"
    "details r = map (detailOf t) (occurrences cats t)"
    "flagged r = (occurrences cats t \<noteq> [])" by blast
  have "md_keyword ` set (details r) = (\<lambda>occ. fst (snd occ)) ` set (occurrences cats t)"
    by (simp add: r(2) image_image keyword_detailOf)
  then have k: "md_keyword ` set (details r) = {k \<in> set (allKeywords cats). keywordMatches k t}"
    by (simp add: occurrences_keywords)
  have "flagged r = (md_keyword ` set (details r) \<noteq> {})"
    by (simp add: r(2,3))
  with k r(1) show ?thesis by auto
qed


subsection \<open>Letter case\<close>

lemma canonicalize_toLowerChar: "canonicalize (toLowerChar c) = canonicalize c"
proof -
  have "of_char (char_of (of_char c + 32 :: nat)) = (of_char c + 32 :: nat)"
    if "(of_char c :: nat) \<le> 90"
    using that by simp
  moreover have "char_of (of_char c + 32 - 32 :: nat) = c" by simp
  ultimately show ?thesis
    by (auto simp: canonicalize_def toLowerChar_def Let_def)
qed



lemma length_toLowerCase: "length (toLowerCase s) = length s"
  by (simp add: toLowerCase_def)

lemma toLowerCase_Nil_iff: "toLowerCase s = [] \<longleftrightarrow> s = []"
  by (simp add: toLowerCase_def)

lemma canonicalize_toLowerCase: "map canonicalize (toLowerCase s) = map canonicalize s"
  by (simp add: toLowerCase_def canonicalize_toLowerChar)

lemma matchesAt_toLowerCase: "matchesAt (toLowerCase keyword) t p = matchesAt keyword t p"
  by (simp add: matchesAt_def length_toLowerCase canonicalize_toLowerCase)

lemma keywordMatches_toLowerCase: "keywordMatches (toLowerCase keyword) t = keywordMatches keyword t"
  by (simp add: keywordMatches_iff matchesAt_toLowerCase)


lemma containsWholeWord_matches: "containsWholeWord t phrase \<Longrightarrow> keywordMatches phrase t"
  by (auto simp: containsWholeWord_def list_ex_iff keywordMatches_iff matchesAt_def)

subsection \<open>addCustomKeyword and removeKeyword\<close>

lemma find_severity_None_iff:
  "List.find (\<lambda>cat. kc_severity cat = sev) cats = None \<longleftrightarrow> (\<forall>c \<in> set cats. kc_severity c \<noteq> sev)"
  by (auto simp: find_None_iff)

lemma keywords_pushKeyword: "set (kc_keywords (pushKeyword l c)) = insert l (set (kc_keywords c))"
  by (auto simp: pushKeyword_def)

lemma allKeywords_updateFirst:
  "\<exists>c \<in> set cats. kc_severity c = sev \<Longrightarrow>
   set (allKeywords (updateFirst sev (pushKeyword l) cats)) = insert l (set (allKeywords cats))"
  by (induction cats) (auto simp: allKeywords_def keywords_pushKeyword)

lemma allKeywords_addCustomKeyword:
  "set (allKeywords (addCustomKeyword cats keyword sev weightArg)) =
     insert (toLowerCase keyword) (set (allKeywords cats))"
proof (cases "List.find (\<lambda>cat. kc_severity cat = sev) cats")
  case None
  then show ?thesis
    by (simp add: addCustomKeyword_def allKeywords_def keywords_pushKeyword)
next
  case (Some c)
  then have "\<exists>c \<in> set cats. kc_severity c = sev"
    using find_severity_None_iff [of sev cats] by auto
  with Some show ?thesis
    by (simp add: addCustomKeyword_def allKeywords_updateFirst)
qed

lemma nonEmptyKeywords_iff: "nonEmptyKeywords cats \<longleftrightarrow> [] \<notin> set (allKeywords cats)"
  by (auto simp: nonEmptyKeywords_def allKeywords_def list_all_iff)

lemma nonEmptyKeywords_addCustomKeyword:
  "nonEmptyKeywords cats \<Longrightarrow> keyword \<noteq> [] \<Longrightarrow>
   nonEmptyKeywords (addCustomKeyword cats keyword sev weightArg)"
  using toLowerCase_Nil_iff [of keyword]
  by (auto simp: nonEmptyKeywords_iff allKeywords_addCustomKeyword)

lemma distinct_pushKeyword: "distinct (kc_keywords c) \<Longrightarrow> distinct (kc_keywords (pushKeyword l c))"
  by (simp add: pushKeyword_def)

lemma distinctKeywords_updateFirst:
  "distinctKeywords cats \<Longrightarrow> distinctKeywords (updateFirst sev (pushKeyword l) cats)"
  by (induction cats) (auto simp: distinctKeywords_def distinct_pushKeyword)

lemma distinctKeywords_addCustomKeyword:
  "distinctKeywords cats \<Longrightarrow> distinctKeywords (addCustomKeyword cats keyword sev weightArg)"
  using distinctKeywords_updateFirst [of cats sev "toLowerCase keyword"]
  by (auto simp: addCustomKeyword_def distinctKeywords_def pushKeyword_def split: option.splits)

lemma removeLoop_eq:
  "removeLoop n cats removed =
     (removed \<or> n \<in> set (allKeywords cats),
      map (\<lambda>c. c\<lparr>kc_keywords := remove1 n (kc_keywords c)\<rparr>) cats)"
  by (induction cats arbitrary: removed) (auto simp: allKeywords_def remove1_idem)

lemma removeKeyword_eq:
  "removeKeyword cats keyword =
     (toLowerCase keyword \<in> set (allKeywords cats),
      map (\<lambda>c. c\<lparr>kc_keywords := remove1 (toLowerCase keyword) (kc_keywords c)\<rparr>) cats)"
  by (simp add: removeKeyword_def removeLoop_eq)


lemma allKeywords_removeKeyword_subset:
  "set (allKeywords (snd (removeKeyword cats keyword))) \<subseteq> set (allKeywords cats)"
  using set_remove1_subset by (fastforce simp: removeKeyword_eq allKeywords_def)

lemma allKeywords_removeKeyword_other:
  "k \<in> set (allKeywords cats) \<Longrightarrow> k \<noteq> toLowerCase keyword \<Longrightarrow>
   k \<in> set (allKeywords (snd (removeKeyword cats keyword)))"
  by (auto simp: removeKeyword_eq allKeywords_def)

lemma allKeywords_removeKeyword:
  "distinctKeywords cats \<Longrightarrow>
   set (allKeywords (snd (removeKeyword cats keyword))) =
     set (allKeywords cats) - {toLowerCase keyword}"
  by (auto simp: removeKeyword_eq allKeywords_def distinctKeywords_def list_all_iff)

lemma nonEmptyKeywords_removeKeyword:
  "nonEmptyKeywords cats \<Longrightarrow> nonEmptyKeywords (snd (removeKeyword cats keyword))"
  using allKeywords_removeKeyword_subset [of cats keyword]
  by (auto simp: nonEmptyKeywords_iff)

lemma distinctKeywords_removeKeyword:
  "distinctKeywords cats \<Longrightarrow> distinctKeywords (snd (removeKeyword cats keyword))"
  by (auto simp: removeKeyword_eq distinctKeywords_def list_all_iff)



lemma distinctKeywords_categories: "distinctKeywords categories"
  by (simp add: distinctKeywords_def categories_def)

subsection \<open>ASCII configurations\<close>

lemma isAscii_toLowerCase: "isAscii s \<Longrightarrow> isAscii (toLowerCase s)"
proof -
  have "(of_char (toLowerChar c) :: nat) < 128" if "(of_char c :: nat) < 128" for c
    using that by (auto simp: toLowerChar_def Let_def)
  then show "isAscii s \<Longrightarrow> isAscii (toLowerCase s)"
    by (auto simp: isAscii_def toLowerCase_def list_all_iff)
qed

lemma asciiKeywords_iff: "asciiKeywords cats \<longleftrightarrow> (\<forall>k \<in> set (allKeywords cats). isAscii k)"
  by (auto simp: asciiKeywords_def allKeywords_def list_all_iff)

lemma asciiKeywords_addCustomKeyword:
  "asciiKeywords cats \<Longrightarrow> isAscii keyword \<Longrightarrow>
   asciiKeywords (addCustomKeyword cats keyword sev weightArg)"
  by (auto simp: asciiKeywords_iff allKeywords_addCustomKeyword isAscii_toLowerCase)

lemma asciiKeywords_removeKeyword:
  "asciiKeywords cats \<Longrightarrow> asciiKeywords (snd (removeKeyword cats keyword))"
  using allKeywords_removeKeyword_subset [of cats keyword]
  by (auto simp: asciiKeywords_iff)

lemma asciiKeywords_categories: "asciiKeywords categories"
  by code_simp

subsection \<open>The empty keyword\<close>

lemma regexExec_again:
  assumes "regexExec keyword t lastIndex = Some p"
  shows "regexExec keyword t p = Some p"
proof -
  from regexExec_SomeD [OF assms] have "matchesAt keyword t p" "p \<le> length t" by auto
  then have "[p ..< Suc (length t)] = p # [Suc p ..< Suc (length t)]"
    by (simp add: upt_conv_Cons del: upt_Suc)
  with \<open>matchesAt keyword t p\<close> show ?thesis
    by (simp add: regexExec_def del: upt_Suc)
qed

lemma matchLoop_empty_Some:
  assumes "matchLoop category keyword t lastIndex st = Some y"
  shows "keyword = [] \<longrightarrow> regexExec keyword t lastIndex = None"
proof (rule matchLoop.raw_induct
    [where P = "\<lambda>category keyword t lastIndex st y.
                  keyword = [] \<longrightarrow> regexExec keyword t lastIndex = None", OF _ assms])
  fix loop :: "KeywordCategory \<Rightarrow> string \<Rightarrow> string \<Rightarrow> nat \<Rightarrow> ScanState \<Rightarrow> ScanState option"
    and c k u i s z
  assume IH: "\<And>c k u i s z. loop c k u i s = Some z \<Longrightarrow> k = [] \<longrightarrow> regexExec k u i = None"
    and step: "(case regexExec k u i of None \<Rightarrow> Some s
                | Some position \<Rightarrow> loop c k u (position + length k) (pushMatch c k u s position))
               = Some z"
  show "k = [] \<longrightarrow> regexExec k u i = None"
  proof (cases "regexExec k u i")
    case None
    then show ?thesis by blast
  next
    case (Some p)
    show ?thesis
    proof
      assume e: "k = []"
      with step Some have "loop c k u p (pushMatch c k u s p) = Some z" by simp
      from IH [OF this] e have "regexExec k u p = None" by simp
      with regexExec_again [OF Some] show "regexExec k u i = None" by simp
    qed
  qed
qed

lemma matchLoop_empty_diverges:
  "keywordMatches [] t \<Longrightarrow> matchLoop category [] t 0 st = None"
  using matchLoop_empty_Some [of category "[]" t 0 st]
  by (cases "matchLoop category [] t 0 st") (auto simp: keywordMatches_def)

lemma keywordLoop_empty_diverges:
  "[] \<in> set ks \<Longrightarrow> keywordMatches [] t \<Longrightarrow> keywordLoop category ks t st = None"
  by (induction ks arbitrary: st) (auto simp: matchLoop_empty_diverges split: option.splits)

lemma categoryLoop_empty_diverges:
  "[] \<in> set (allKeywords cats) \<Longrightarrow> keywordMatches [] t \<Longrightarrow> categoryLoop cats t st = None"
  by (induction cats arbitrary: st)
     (auto simp: allKeywords_def keywordLoop_empty_diverges split: option.splits)

lemma scan_empty_diverges:
  "[] \<in> set (allKeywords cats) \<Longrightarrow> keywordMatches [] t \<Longrightarrow> scan cats t = None"
  by (simp add: scan_def categoryLoop_empty_diverges)

subsection \<open>Adding and removing keywords\<close>





text \<open>
  C9, as the code has it, for ASCII text. In a configuration of ASCII keywords without
  an empty keyword and without a keyword twice in one category (all three hold of the
  built-in categories and are kept by \<open>addCustomKeyword\<close> of a non-empty ASCII phrase
  and by \<open>removeKeyword\<close>), for a non-empty ASCII phrase and an ASCII text that contains
  it as a whole word: after \<open>addCustomKeyword\<close> the scan of the text returns a flagged
  result with a detail for the lowercased phrase; \<open>removeKeyword\<close> of the phrase then
  returns true, and the scan of the text returns a result without a detail for the
  lowercased phrase, flagged exactly when another keyword of the configuration matches
  the text.
\<close>

theorem addCustomKeyword_removeKeyword_scan:
  assumes "nonEmptyKeywords cats" and "distinctKeywords cats" and "asciiKeywords cats"
    and "phrase \<noteq> []" and "isAscii phrase" and "isAscii text"
    and "containsWholeWord text phrase"
  shows "(\<exists>r. scan (addCustomKeyword cats phrase sev w) text = Some r \<and> flagged r \<and>
            toLowerCase phrase \<in> md_keyword ` set (details r)) \<and>
     fst (removeKeyword (addCustomKeyword cats phrase sev w) phrase) \<and>
     (\<exists>r. scan (snd (removeKeyword (addCustomKeyword cats phrase sev w) phrase)) text = Some r \<and>
          toLowerCase phrase \<notin> md_keyword ` set (details r) \<and>
          (flagged r \<longleftrightarrow>
             (\<exists>k \<in> set (allKeywords cats) - {toLowerCase phrase}. keywordMatches k text))) \<and>
     nonEmptyKeywords (addCustomKeyword cats phrase sev w) \<and>
     distinctKeywords (addCustomKeyword cats phrase sev w) \<and>
     asciiKeywords (addCustomKeyword cats phrase sev w) \<and>
     nonEmptyKeywords (snd (removeKeyword (addCustomKeyword cats phrase sev w) phrase)) \<and>
     distinctKeywords (snd (removeKeyword (addCustomKeyword cats phrase sev w) phrase)) \<and>
     asciiKeywords (snd (removeKeyword (addCustomKeyword cats phrase sev w) phrase))"
proof -
  let ?added = "addCustomKeyword cats phrase sev w"
  let ?removed = "snd (removeKeyword ?added phrase)"
  have m: "keywordMatches (toLowerCase phrase) text"
    using containsWholeWord_matches [OF assms(7)] by (simp add: keywordMatches_toLowerCase)
  have ne: "nonEmptyKeywords ?added"
    using assms(1,4) by (rule nonEmptyKeywords_addCustomKeyword)
  have di: "distinctKeywords ?added"
    using assms(2) by (rule distinctKeywords_addCustomKeyword)
  have asc: "asciiKeywords ?added"
    using assms(3,5) by (rule asciiKeywords_addCustomKeyword)
  have 1: "\<exists>r. scan ?added text = Some r \<and> flagged r \<and>
            toLowerCase phrase \<in> md_keyword ` set (details r)"
    using scan_keywords [OF ne, of "text"] m by (auto simp: allKeywords_addCustomKeyword)
  have 2: "fst (removeKeyword ?added phrase)"
    by (simp add: removeKeyword_eq allKeywords_addCustomKeyword)
  have ks: "set (allKeywords ?removed) = set (allKeywords cats) - {toLowerCase phrase}"
    by (simp add: allKeywords_removeKeyword [OF di] allKeywords_addCustomKeyword)
  have 3: "\<exists>r. scan ?removed text = Some r \<and>
          toLowerCase phrase \<notin> md_keyword ` set (details r) \<and>
          (flagged r \<longleftrightarrow>
             (\<exists>k \<in> set (allKeywords cats) - {toLowerCase phrase}. keywordMatches k text))"
    using scan_keywords [OF nonEmptyKeywords_removeKeyword [OF ne], of phrase "text"]
    by (auto simp: ks)
  have 4: "nonEmptyKeywords ?removed" using ne by (rule nonEmptyKeywords_removeKeyword)
  have 5: "distinctKeywords ?removed" using di by (rule distinctKeywords_removeKeyword)
  have 6: "asciiKeywords ?removed" using asc by (rule asciiKeywords_removeKeyword)
  from 1 2 3 ne di asc 4 5 6 show ?thesis by (intro conjI)
qed

theorem addCustomKeyword_removeKeyword_scan_witness:
  "nonEmptyKeywords categories \<and> distinctKeywords categories \<and> asciiKeywords categories \<and>
   ''Grandson'' \<noteq> [] \<and> isAscii ''Grandson'' \<and> isAscii ''your Grandson needs help'' \<and>
   containsWholeWord ''your Grandson needs help'' ''Grandson'' \<and>
   (\<exists>r. scan (addCustomKeyword categories ''Grandson'' High None) ''your Grandson needs help'' = Some r \<and>
        flagged r \<and> ''grandson'' \<in> md_keyword ` set (details r)) \<and>
   fst (removeKeyword (addCustomKeyword categories ''Grandson'' High None) ''Grandson'') \<and>
   (\<exists>r. scan (snd (removeKeyword (addCustomKeyword categories ''Grandson'' High None) ''Grandson''))
          ''your Grandson needs help'' = Some r \<and>
        ''grandson'' \<notin> md_keyword ` set (details r)) \<and>
   asciiKeywords (snd (removeKeyword (addCustomKeyword categories ''Grandson'' High None) ''Grandson''))"
proof -
  have c: "containsWholeWord ''your Grandson needs help'' ''Grandson''" by code_simp
  have l: "toLowerCase ''Grandson'' = ''grandson''" by code_simp
  have n: "''Grandson'' \<noteq> []" by simp
  have p: "isAscii ''Grandson''" by code_simp
  have t: "isAscii ''your Grandson needs help''" by code_simp
  from addCustomKeyword_removeKeyword_scan
    [OF nonEmptyKeywords_categories distinctKeywords_categories asciiKeywords_categories
        n p t c, of High None]
    nonEmptyKeywords_categories distinctKeywords_categories asciiKeywords_categories p t c
  show ?thesis unfolding l by blast
qed

text \<open>
  C9, as the claim states it, fails. The text \<open>foo urgent\<close> contains the phrase
  \<open>foo\<close> as a whole word; after the phrase is added and removed again, the scan of the
  text is still flagged, by the built-in keyword \<open>urgent\<close>. And after the empty
  phrase is added, the scan of the text \<open>a\<close> does not return.
\<close>

theorem addCustomKeyword_removeKeyword_counterexample:
  "containsWholeWord ''foo urgent'' ''foo'' \<and>
   map_option flagged
     (scan (snd (removeKeyword (addCustomKeyword categories ''foo'' Low None) ''foo'')) ''foo urgent'')
     = Some True \<and>
   containsWholeWord ''a'' '''' \<and>
   scan (addCustomKeyword categories '''' Low None) ''a'' = None"
proof -
  let ?cats = "snd (removeKeyword (addCustomKeyword categories ''foo'' Low None) ''foo'')"
  have c1: "containsWholeWord ''foo urgent'' ''foo''" by code_simp
  have c2: "containsWholeWord ''a'' ''''" by code_simp
  have l: "toLowerCase ''foo'' = ''foo''" by code_simp
  have ne: "nonEmptyKeywords ?cats"
    by (intro nonEmptyKeywords_removeKeyword nonEmptyKeywords_addCustomKeyword
          nonEmptyKeywords_categories) simp
  have "''urgent'' \<in> set (allKeywords categories)"
    by (simp add: allKeywords_def categories_def)
  then have "''urgent'' \<in> set (allKeywords (addCustomKeyword categories ''foo'' Low None))"
    by (simp add: allKeywords_addCustomKeyword)
  then have u: "''urgent'' \<in> set (allKeywords ?cats)"
    by (rule allKeywords_removeKeyword_other) (simp add: l)
  have m: "keywordMatches ''urgent'' ''foo urgent''" by code_simp
  from scan_keywords [OF ne, of "''foo urgent''"] u m
  have f: "map_option flagged (scan ?cats ''foo urgent'') = Some True" by auto
  have "[] \<in> set (allKeywords (addCustomKeyword categories '''' Low None))"
    by (simp add: allKeywords_addCustomKeyword toLowerCase_def)
  moreover have "keywordMatches [] ''a''"
    using containsWholeWord_matches [OF c2] .
  ultimately have "scan (addCustomKeyword categories '''' Low None) ''a'' = None"
    by (rule scan_empty_diverges)
  with c1 c2 f show ?thesis by blast
qed

section \<open>The heuristic evaluator\<close>

lemma signal_chain:
  "signal b i f (sum_list (map fst L), map snd L) =
     (sum_list (map fst (L @ triggeredIf b i f)), map snd (L @ triggeredIf b i f))"
  by (simp add: signal_def triggeredIf_def)

lemma signal_start:
  "(0::real, []::string list) =
     (sum_list (map fst ([]::(real \<times> string) list)), map snd ([]::(real \<times> string) list))"
  by simp

lemma mockClassify_signals:
  "mockClassify message =
     \<lparr>isSuspicious = (sum_list (map fst (spec_signals message)) \<ge> 0.4),
      reason = (if sum_list (map fst (spec_signals message)) \<ge> 0.4
                then join ''; '' (map snd (spec_signals message))
                else ''No significant suspicious patterns detected''),
      confidence = min (sum_list (map fst (spec_signals message))) 1\<rparr>"
  unfolding mockClassify_def spec_signals_def spec_baseSignals_def Let_def signal_start
    signal_chain fst_conv snd_conv append_Nil append_assoc
  by simp

lemma list_all_triggeredIf:
  "list_all P (triggeredIf b i f) = (b \<longrightarrow> P (i, f))"
  by (simp add: triggeredIf_def)

lemma spec_signals_nonneg: "0 \<le> sum_list (map fst (spec_signals message))"
proof -
  have "list_all (\<lambda>x. 0 \<le> fst x) (spec_signals message)"
    by (simp add: spec_signals_def spec_baseSignals_def Let_def list_all_triggeredIf)
  then show ?thesis
    by (intro sum_list_nonneg) (auto simp: list_all_iff)
qed

lemma spec_signals_urgent: "spec_signals ''urgent'' = [(0.3, ''Uses urgent language'')]"
  by (simp add: spec_signals_def spec_baseSignals_def triggeredIf_def toLowerCase_def
        toLowerChar_def startsWith_def)

lemma spec_signals_click:
  "spec_signals ''click this link to verify your password immediately'' =
     [(0.3, ''Uses urgent language''), (0.25, ''Contains clickable link request''),
      (0.2, ''Requests verification''), (0.5, ''Requests sensitive information'')]"
  by (simp add: spec_signals_def spec_baseSignals_def triggeredIf_def toLowerCase_def
        toLowerChar_def startsWith_def)

text \<open>
  C7, as the code has it. The confidence of the heuristic verdict is the minimum of the
  accumulated signal score and 1; the verdict is suspicious exactly when the confidence
  is at least 0.4; the reason is the fragments of the triggered signals joined by
  \<open>"; "\<close> when the verdict is suspicious, and the fixed message otherwise, also when
  signals triggered below the threshold.
\<close>

theorem mockClassify_verdict:
  "confidence (mockClassify message) = min (sum_list (map fst (spec_signals message))) 1 \<and>
   (isSuspicious (mockClassify message) \<longleftrightarrow> confidence (mockClassify message) \<ge> 0.4) \<and>
   reason (mockClassify message) =
     (if isSuspicious (mockClassify message) then join ''; '' (map snd (spec_signals message))
      else ''No significant suspicious patterns detected'')"
  by (simp add: mockClassify_signals min_def)

theorem mockClassify_verdict_witness:
  "confidence (mockClassify ''click this link to verify your password immediately'') = 1 \<and>
   isSuspicious (mockClassify ''click this link to verify your password immediately'') \<and>
   reason (mockClassify ''click this link to verify your password immediately'') =
     ''Uses urgent language; Contains clickable link request; Requests verification; Requests sensitive information''"
  using mockClassify_verdict [of "''click this link to verify your password immediately''"]
  by (simp add: spec_signals_click)

text \<open>
  C7, as the claim states it, fails: the message \<open>urgent\<close> triggers the urgency signal,
  its score 0.3 is below 0.4, and the reason is the fixed message, not the fragment.
\<close>

theorem mockClassify_reason_counterexample:
  "reason (mockClassify ''urgent'') \<noteq> spec_reason ''urgent''"
  by (simp add: mockClassify_signals spec_reason_def spec_signals_urgent)

section \<open>The delegated mode\<close>

text \<open>
  C8. Whenever the request of the delegated mode fails (the transport fails, the status
  is not a success, or the body is malformed), \<open>classifyWithAI\<close> returns the heuristic
  verdict for the same message, as a value and not as an error.
\<close>

theorem classifyWithAI_fallback:
  "requestFailed outcome \<Longrightarrow> classifyWithAI this outcome message = Inr (mockClassify message)"
  by (cases outcome) (auto simp: requestFailed_def classifyWithAI_def delegatedClassify_def)

theorem classifyWithAI_fallback_witness:
  "requestFailed (Response 503 (Data \<lparr>rd_isSuspicious = Some True, rd_reason = None, rd_confidence = Some 1\<rparr>)) \<and>
   classifyWithAI \<lparr>apiEndpoint = ''https://api.example/classify'', apiKey = ''key'', mockMode = False\<rparr>
     (Response 503 (Data \<lparr>rd_isSuspicious = Some True, rd_reason = None, rd_confidence = Some 1\<rparr>))
     ''urgent''
   = Inr \<lparr>isSuspicious = False, reason = ''No significant suspicious patterns detected'',
          confidence = 0.3\<rparr>"
proof -
  have f: "requestFailed (Response 503 (Data \<lparr>rd_isSuspicious = Some True, rd_reason = None, rd_confidence = Some 1\<rparr>))"
    by (simp add: requestFailed_def responseOk_def)
  have m: "mockClassify ''urgent'' =
      \<lparr>isSuspicious = False, reason = ''No significant suspicious patterns detected'',
       confidence = 0.3\<rparr>"
    by (simp add: mockClassify_signals spec_signals_urgent)
  show ?thesis using f classifyWithAI_fallback [OF f] m by simp
qed

text \<open>
  C6. The heuristic verdict has its confidence in [0,1], by \<open>Math.min\<close> and because
  every increment is positive. The verdict of a successful delegated request takes the
  confidence of the response as it is: a response with confidence 7 gives a verdict with
  confidence 7.
\<close>

theorem classifyWithAI_delegated_confidence:
  "0 \<le> confidence (mockClassify message) \<and> confidence (mockClassify message) \<le> 1 \<and>
   classifyWithAI \<lparr>apiEndpoint = ''https://api.example/classify'', apiKey = ''key'', mockMode = False\<rparr>
     (Response 200 (Data \<lparr>rd_isSuspicious = Some True, rd_reason = Some ''scam'', rd_confidence = Some 7\<rparr>))
     message
   = Inr \<lparr>isSuspicious = True, reason = ''scam'', confidence = 7\<rparr>"
  using spec_signals_nonneg [of message]
  by (simp add: mockClassify_signals classifyWithAI_def delegatedClassify_def responseOk_def)

section \<open>The combiners\<close>

text \<open>
  C3, as the code has it. \<open>combineResults\<close> applies the priority order of the claim to
  the classifier's confidence with strict comparisons; \<open>analyzeText\<close> applies it to the
  blended score, and gives \<open>medium\<close> for a blended score of at least 0.4 whether or not
  the classifier is suspicious.
\<close>

theorem overallSeverity_by_combiner:
  "overallSeverity (combineResults r v t) =
     (if severity r = Critical \<or> (isSuspicious v \<and> confidence v > 0.8) then Critical
      else if severity r = High \<or> (isSuspicious v \<and> confidence v > 0.6) then High
      else if severity r = Medium \<or> isSuspicious v then Medium
      else Low) \<and>
   overallSeverity (analyzeText r v t) =
     (if severity r = Critical \<or> (isSuspicious v \<and> finalScore (analyzeText r v t) \<ge> 0.8) then Critical
      else if severity r = High \<or> (isSuspicious v \<and> finalScore (analyzeText r v t) \<ge> 0.6) then High
      else if severity r = Medium \<or> finalScore (analyzeText r v t) \<ge> 0.4 then Medium
      else Low) \<and>
   finalScore (analyzeText r v t) = 0.6 * min (real_of_int (score r) / 200) 1 + 0.4 * confidence v"
  by (simp add: combineResults_def analyzeText_def determineOverallSeverity_def
        normalizeScore_def Let_def)

theorem overallSeverity_by_combiner_witness:
  "overallSeverity (combineResults
      \<lparr>flagged = False, score = 0, matches = [], severity = Low, details = []\<rparr>
      \<lparr>isSuspicious = True, reason = ''Requests unusual payment method; Contains multiple URLs'',
       confidence = 0.9\<rparr> ''t'') = Critical \<and>
   overallSeverity (analyzeText
      \<lparr>flagged = False, score = 0, matches = [], severity = Low, details = []\<rparr>
      \<lparr>isSuspicious = True, reason = ''Requests unusual payment method; Contains multiple URLs'',
       confidence = 0.9\<rparr> ''t'') = Low"
  using overallSeverity_by_combiner [of
      "\<lparr>flagged = False, score = 0, matches = [], severity = Low, details = []\<rparr>"
      "\<lparr>isSuspicious = True, reason = ''Requests unusual payment method; Contains multiple URLs'',
        confidence = 0.9\<rparr>" "''t''"]
  by simp

text \<open>
  C3, as the claim states it, fails in both combiners at a keyword result of severity
  \<open>low\<close> and a suspicious verdict of confidence 0.8 (the pair that the text
  \<open>urgently passwords\<close> gives): the claim says \<open>critical\<close>, \<open>combineResults\<close> says
  \<open>high\<close> and \<open>analyzeText\<close> says \<open>low\<close>.
\<close>

theorem overallSeverity_counterexample:
  "spec_combinedSeverity Low True 0.8 = Critical \<and>
   overallSeverity (combineResults
      \<lparr>flagged = False, score = 0, matches = [], severity = Low, details = []\<rparr>
      \<lparr>isSuspicious = True, reason = ''Uses urgent language; Requests sensitive information'',
       confidence = 0.8\<rparr> ''urgently passwords'') = High \<and>
   overallSeverity (analyzeText
      \<lparr>flagged = False, score = 0, matches = [], severity = Low, details = []\<rparr>
      \<lparr>isSuspicious = True, reason = ''Uses urgent language; Requests sensitive information'',
       confidence = 0.8\<rparr> ''urgently passwords'') = Low"
  by (simp add: spec_combinedSeverity_def combineResults_def analyzeText_def
        determineOverallSeverity_def normalizeScore_def Let_def)




text \<open>
  C5. At the pair that the text \<open>passwords\<close> gives (no keyword match, heuristic
  confidence 0.5) the blend of the claim is 0.2; \<open>analyzeText\<close> computes 0.2 and
  \<open>combineResults\<close>, which blends the raw keyword score with a hundred times the
  confidence, computes 20.
\<close>

theorem finalScore_combiners_differ:
  "spec_finalScore
      \<lparr>flagged = False, score = 0, matches = [], severity = Low, details = []\<rparr>
      \<lparr>isSuspicious = True, reason = ''Requests sensitive information'', confidence = 0.5\<rparr> = 0.2 \<and>
   finalScore (analyzeText
      \<lparr>flagged = False, score = 0, matches = [], severity = Low, details = []\<rparr>
      \<lparr>isSuspicious = True, reason = ''Requests sensitive information'', confidence = 0.5\<rparr>
      ''passwords'') = 0.2 \<and>
   finalScore (combineResults
      \<lparr>flagged = False, score = 0, matches = [], severity = Low, details = []\<rparr>
      \<lparr>isSuspicious = True, reason = ''Requests sensitive information'', confidence = 0.5\<rparr>
      ''passwords'') = 20"
  by (simp add: spec_finalScore_def analyzeText_def combineResults_def normalizeScore_def Let_def)

end
